theory Spec2Isabelle
  imports Complex_Main
begin

section \<open>Python values used by \<^verbatim>\<open>meeting_notes.py\<close>\<close>

text \<open>
  A Python \<^verbatim>\<open>str\<close> is a sequence of Unicode code points, so it is modelled as a list of
  natural numbers (one per code point), not as a list of bytes. \<open>py\<close> turns an ASCII
  literal into such a string.
\<close>

type_synonym codepoint = nat
type_synonym pystr = "codepoint list"

definition py :: "string \<Rightarrow> pystr" where
  "py s = map of_char s"

text \<open>The exceptions that can leave the functions of the module.\<close>

datatype error =
    SystemExit pystr     \<comment> \<open>\<^verbatim>\<open>raise SystemExit(msg)\<close>\<close>
  | ValueError           \<comment> \<open>\<^verbatim>\<open>range()\<close> with step 0\<close>
  | AttributeError       \<comment> \<open>\<^verbatim>\<open>.get\<close> or \<^verbatim>\<open>.strip\<close> on a value that has no such method\<close>
  | ApiError pystr       \<comment> \<open>whatever the OpenAI client raises, named by its message\<close>

section \<open>\<^verbatim>\<open>chunk_audio\<close>\<close>

text \<open>
  A decoded \<^verbatim>\<open>AudioSegment\<close> is known here by its length in milliseconds
  (\<^verbatim>\<open>len(audio)\<close>), and a slice of it by the span of milliseconds it covers. pydub clips
  both ends of a slice \<^verbatim>\<open>audio[a:b]\<close> to the length of the segment.
\<close>

record span =
  start_ms :: nat
  stop_ms :: nat

definition slice :: "nat \<Rightarrow> nat \<Rightarrow> nat \<Rightarrow> span" where
  "slice L a b = \<lparr>start_ms = min a L, stop_ms = min b L\<rparr>"

text \<open>
  \<^verbatim>\<open>range(i, n, k)\<close> for a positive step, as the loop that yields \<open>i, i + k, \<dots>\<close> while
  the value is below \<open>n\<close>.
\<close>

function range_up :: "nat \<Rightarrow> nat \<Rightarrow> nat \<Rightarrow> nat list" where
  "range_up i n k = (if 0 < k \<and> i < n then i # range_up (i + k) n k else [])"
  by pat_completeness auto
termination
  by (relation "measure (\<lambda>(i, n, k). n - i)") auto

declare range_up.simps [simp del]

text \<open>
  \<^verbatim>\<open>range(0, n, step)\<close>: step 0 raises \<^verbatim>\<open>ValueError\<close>, a negative step from 0 upwards
  yields nothing.
\<close>

definition py_range :: "nat \<Rightarrow> int \<Rightarrow> error + nat list" where
  "py_range n step =
     (if step = 0 then Inl ValueError
      else if step < 0 then Inr []
      else Inr (range_up 0 n (nat step)))"

text \<open>
  \<^verbatim>\<open>
  def chunk_audio(audio_path, chunk_seconds):
      audio = AudioSegment.from_file(audio_path)
      stride = chunk_seconds * 1000
      for start_ms in range(0, len(audio), stride):
          yield audio[start_ms : start_ms + stride]
  \<close>
  The first argument of the model is \<^verbatim>\<open>len(audio)\<close>; the result is the list of the
  segments the generator yields, in order.
\<close>

definition chunk_audio :: "nat \<Rightarrow> int \<Rightarrow> error + span list" where
  "chunk_audio L chunk_seconds =
     (let stride = chunk_seconds * 1000 in
      case py_range L stride of
        Inl e \<Rightarrow> Inl e
      | Inr starts \<Rightarrow> Inr (map (\<lambda>start. slice L start (start + nat stride)) starts))"

section \<open>JSON values\<close>

text \<open>
  The values \<^verbatim>\<open>json.loads\<close> returns. An integer literal is a Python \<^verbatim>\<open>int\<close>; a literal with a
  fraction or an exponent is a \<^verbatim>\<open>float\<close>, kept here as the decimal it was written as (sign,
  digits \<open>m\<close> and exponent \<open>k\<close> of the value \<open>m * 10 ^ k\<close>); \<^verbatim>\<open>NaN\<close>, \<^verbatim>\<open>Infinity\<close> and \<^verbatim>\<open>-Infinity\<close>
  are accepted too. A \<^verbatim>\<open>dict\<close> is the list of its members in the order of the text; where a
  key is repeated the last member is the one Python keeps.
\<close>

datatype pyfloat =
    Dec bool nat int
  | NaN
  | Infinity bool

datatype json =
    JNull
  | JBool bool
  | JInt int
  | JFloat pyfloat
  | JStr pystr
  | JArr "json list"
  | JObj "(pystr \<times> json) list"

text \<open>
  Truth value of a Python object (\<^verbatim>\<open>if x\<close>, \<^verbatim>\<open>x or None\<close>): \<^verbatim>\<open>None\<close>, \<^verbatim>\<open>False\<close>, zero, the empty
  string, the empty list and the empty dict are false. The float read from a decimal is zero
  when its digits are all zero or when it rounds to zero, which is at or below \<open>2 ^ -1075\<close>,
  half the smallest positive double (round half to even).
\<close>

definition float_is_zero :: "pyfloat \<Rightarrow> bool" where
  "float_is_zero x =
     (case x of
        Dec neg m k \<Rightarrow> m = 0 \<or> (k < 0 \<and> m * 2 ^ 1075 \<le> 10 ^ nat (- k))
      | NaN \<Rightarrow> False
      | Infinity neg \<Rightarrow> False)"

fun truthy :: "json \<Rightarrow> bool" where
  "truthy JNull = False"
| "truthy (JBool b) = b"
| "truthy (JInt i) = (i \<noteq> 0)"
| "truthy (JFloat x) = (\<not> float_is_zero x)"
| "truthy (JStr s) = (s \<noteq> [])"
| "truthy (JArr xs) = (xs \<noteq> [])"
| "truthy (JObj kvs) = (kvs \<noteq> [])"

text \<open>
  \<^verbatim>\<open>str.strip()\<close> removes the code points for which \<^verbatim>\<open>str.isspace\<close> holds from both ends;
  \<^verbatim>\<open>str.strip(chars)\<close> with a backquote as \<^verbatim>\<open>chars\<close> removes backquotes (code point 96) from
  both ends.
\<close>

definition isspace :: "codepoint \<Rightarrow> bool" where
  "isspace c =
     ((9 \<le> c \<and> c \<le> 13) \<or> (28 \<le> c \<and> c \<le> 32) \<or> c = 133 \<or> c = 160 \<or> c = 5760 \<or>
      (8192 \<le> c \<and> c \<le> 8202) \<or> c = 8232 \<or> c = 8233 \<or> c = 8239 \<or> c = 8287 \<or> c = 12288)"

definition strip_chars :: "(codepoint \<Rightarrow> bool) \<Rightarrow> pystr \<Rightarrow> pystr" where
  "strip_chars p s = rev (dropWhile p (rev (dropWhile p s)))"

definition strip :: "pystr \<Rightarrow> pystr" where
  "strip s = strip_chars isspace s"

definition strip_backticks :: "pystr \<Rightarrow> pystr" where
  "strip_backticks s = strip_chars (\<lambda>c. c = 96) s"

section \<open>\<^verbatim>\<open>json.loads\<close>\<close>

text \<open>
  The decoder of \<^verbatim>\<open>json.loads\<close> for a \<^verbatim>\<open>str\<close>, after CPython's \<^verbatim>\<open>json.decoder\<close> and
  \<^verbatim>\<open>json.scanner\<close>: white space is space, tab, line feed and carriage return; digits are
  ASCII; a string may not hold a raw control character; the escapes are a backslash before
  one of \<^verbatim>\<open>" / b f n r t\<close> or another backslash, and \<^verbatim>\<open>uXXXX\<close> with four hexadecimal digits,
  where a high surrogate followed by an escaped low surrogate is one code point. \<open>None\<close>
  stands for \<^verbatim>\<open>JSONDecodeError\<close>. Limits of the interpreter (recursion depth, the digit limit
  of \<^verbatim>\<open>int\<close>) are outside the model.
\<close>

definition is_ws :: "codepoint \<Rightarrow> bool" where
  "is_ws c = (c = 32 \<or> c = 9 \<or> c = 10 \<or> c = 13)"

definition is_digit :: "codepoint \<Rightarrow> bool" where
  "is_digit c = (48 \<le> c \<and> c \<le> 57)"

definition hex_digit :: "codepoint \<Rightarrow> nat option" where
  "hex_digit c =
     (if 48 \<le> c \<and> c \<le> 57 then Some (c - 48)
      else if 97 \<le> c \<and> c \<le> 102 then Some (c - 87)
      else if 65 \<le> c \<and> c \<le> 70 then Some (c - 55)
      else None)"

fun hex4 :: "pystr \<Rightarrow> nat option" where
  "hex4 [a, b, c, d] =
     (case (hex_digit a, hex_digit b, hex_digit c, hex_digit d) of
        (Some w, Some x, Some y, Some z) \<Rightarrow> Some (((w * 16 + x) * 16 + y) * 16 + z)
      | _ \<Rightarrow> None)"
| "hex4 _ = None"

definition unescape :: "codepoint \<Rightarrow> codepoint option" where
  "unescape e =
     (if e = 34 then Some 34
      else if e = 92 then Some 92
      else if e = 47 then Some 47
      else if e = 98 then Some 8
      else if e = 102 then Some 12
      else if e = 110 then Some 10
      else if e = 114 then Some 13
      else if e = 116 then Some 9
      else None)"

definition low_surrogate_escape :: "pystr \<Rightarrow> nat option" where
  "low_surrogate_escape cs =
     (if take 2 cs = [92, 117] then
        (case hex4 (take 4 (drop 2 cs)) of
           Some u \<Rightarrow> if 56320 \<le> u \<and> u \<le> 57343 then Some u else None
         | None \<Rightarrow> None)
      else None)"

text \<open>
  \<open>scanstring cs\<close> reads a string body after its opening quote and returns the decoded
  string and the text after the closing quote.
\<close>

definition push :: "'a \<Rightarrow> ('a list \<times> 'b) option \<Rightarrow> ('a list \<times> 'b) option" where
  "push x r = (case r of None \<Rightarrow> None | Some (xs, rest) \<Rightarrow> Some (x # xs, rest))"

fun scanstring :: "pystr \<Rightarrow> (pystr \<times> pystr) option" where
  "scanstring [] = None"
| "scanstring (c # cs) =
     (if c = 34 then Some ([], cs)
      else if c = 92 then
        (case cs of
           [] \<Rightarrow> None
         | e # es \<Rightarrow>
             if e = 117 then
               (case hex4 (take 4 es) of
                  None \<Rightarrow> None
                | Some u \<Rightarrow>
                    if 55296 \<le> u \<and> u \<le> 56319 then
                      (case low_surrogate_escape (drop 4 es) of
                         Some u2 \<Rightarrow>
                           push (65536 + (u - 55296) * 1024 + (u2 - 56320)) (scanstring (drop 10 es))
                       | None \<Rightarrow> push u (scanstring (drop 4 es)))
                    else push u (scanstring (drop 4 es)))
             else
               (case unescape e of
                  None \<Rightarrow> None
                | Some x \<Rightarrow> push x (scanstring es)))
      else if c < 32 then None
      else push c (scanstring cs))"


text \<open>
  Numbers: an optional minus, then 0 or a digit sequence that does not start with 0, then
  optionally a point with digits, then optionally \<^verbatim>\<open>e\<close> or \<^verbatim>\<open>E\<close> with an optional sign and
  digits; the longest prefix that matches.
\<close>

definition digits_value :: "pystr \<Rightarrow> nat" where
  "digits_value ds = foldl (\<lambda>acc d. acc * 10 + (d - 48)) 0 ds"

definition scan_digits :: "pystr \<Rightarrow> pystr \<times> pystr" where
  "scan_digits cs = (takeWhile is_digit cs, dropWhile is_digit cs)"

definition scan_int_part :: "pystr \<Rightarrow> (pystr \<times> pystr) option" where
  "scan_int_part cs =
     (case cs of
        [] \<Rightarrow> None
      | d # rest \<Rightarrow>
          if d = 48 then Some ([d], rest)
          else if is_digit d then Some (d # takeWhile is_digit rest, dropWhile is_digit rest)
          else None)"

definition scan_frac_part :: "pystr \<Rightarrow> pystr \<times> pystr" where
  "scan_frac_part cs =
     (case cs of
        p # d # rest \<Rightarrow>
          if p = 46 \<and> is_digit d then (d # takeWhile is_digit rest, dropWhile is_digit rest)
          else ([], cs)
      | _ \<Rightarrow> ([], cs))"

definition scan_exp_part :: "pystr \<Rightarrow> (int option) \<times> pystr" where
  "scan_exp_part cs =
     (case cs of
        [] \<Rightarrow> (None, cs)
      | e # rest \<Rightarrow>
          if e = 101 \<or> e = 69 then
            (case rest of
               [] \<Rightarrow> (None, cs)
             | s # rest' \<Rightarrow>
                 if (s = 43 \<or> s = 45) \<and> rest' \<noteq> [] \<and> is_digit (hd rest') then
                   (Some ((if s = 45 then - 1 else 1) * int (digits_value (takeWhile is_digit rest'))),
                    dropWhile is_digit rest')
                 else if is_digit s then
                   (Some (int (digits_value (takeWhile is_digit rest))), dropWhile is_digit rest)
                 else (None, cs))
          else (None, cs))"

definition scan_number :: "pystr \<Rightarrow> (json \<times> pystr) option" where
  "scan_number cs =
     (let neg = (cs \<noteq> [] \<and> hd cs = 45);
          body = (if neg then tl cs else cs)
      in case scan_int_part body of
           None \<Rightarrow> None
         | Some (ip, r1) \<Rightarrow>
             (case scan_frac_part r1 of
                (fp, r2) \<Rightarrow>
                  (case scan_exp_part r2 of
                     (ex, r3) \<Rightarrow>
                       if fp = [] \<and> ex = None then
                         Some (JInt ((if neg then - 1 else 1) * int (digits_value ip)), r3)
                       else
                         Some (JFloat (Dec neg (digits_value (ip @ fp))
                                 ((case ex of None \<Rightarrow> 0 | Some k \<Rightarrow> k) - int (length fp))), r3))))"

text \<open>
  The text is cut into tokens and the tokens are read by a pushdown automaton, one token
  at a time. A text is accepted when it is exactly one value, with white space allowed
  around every token.
\<close>

datatype token =
    LBrace | RBrace | LBracket | RBracket | Colon | Comma
  | TString pystr
  | TValue json

definition starts_with :: "pystr \<Rightarrow> pystr \<Rightarrow> bool" where
  "starts_with p cs = (take (length p) cs = p)"

definition scan_literal :: "pystr \<Rightarrow> (json \<times> pystr) option" where
  "scan_literal cs =
     (if starts_with (py ''null'') cs then Some (JNull, drop 4 cs)
      else if starts_with (py ''true'') cs then Some (JBool True, drop 4 cs)
      else if starts_with (py ''false'') cs then Some (JBool False, drop 5 cs)
      else if starts_with (py ''NaN'') cs then Some (JFloat NaN, drop 3 cs)
      else if starts_with (py ''Infinity'') cs then Some (JFloat (Infinity False), drop 8 cs)
      else if starts_with (py ''-Infinity'') cs then Some (JFloat (Infinity True), drop 9 cs)
      else scan_number cs)"

text \<open>
  Every scanner consumes at least one code point, which is what makes the tokenizer
  terminate.
\<close>

lemma scanstring_shorter: "scanstring cs = Some (s, rest) \<Longrightarrow> length rest < length cs"
proof (induction cs arbitrary: s rest rule: scanstring.induct)
  case 1
  then show ?case by simp
next
  case (2 c cs)
  then show ?case
    by (auto simp: push_def split: if_splits option.splits list.splits prod.splits)
       (fastforce+)?
qed


lemma scan_number_shorter: "scan_number cs = Some (v, rest) \<Longrightarrow> length rest < length cs"
proof -
  have dw: "length (dropWhile P xs) \<le> length xs" for P and xs :: pystr
    by (induction xs) auto
  have ip: "length r < length b" if "scan_int_part b = Some (ds, r)" for b ds r
    using that dw [of is_digit "tl b"]
    by (cases b) (auto simp: scan_int_part_def split: if_splits)
  have fp: "length r \<le> length b" if "scan_frac_part b = (ds, r)" for b ds r
  proof (cases b)
    case Nil
    with that show ?thesis by (simp add: scan_frac_part_def)
  next
    case (Cons p b')
    show ?thesis
    proof (cases b')
      case Nil
      with Cons that show ?thesis by (simp add: scan_frac_part_def)
    next
      case (Cons d b'')
      with \<open>b = p # b'\<close> that dw [of is_digit b''] show ?thesis
        by (auto simp: scan_frac_part_def split: if_splits)
    qed
  qed
  have ep: "length r \<le> length b" if "scan_exp_part b = (ex, r)" for b ex r
  proof (cases b)
    case Nil
    with that show ?thesis by (simp add: scan_exp_part_def)
  next
    case (Cons e b')
    show ?thesis
    proof (cases b')
      case Nil
      with Cons that show ?thesis by (auto simp: scan_exp_part_def split: if_splits)
    next
      case (Cons s b'')
      with \<open>b = e # b'\<close> that dw [of is_digit b''] dw [of is_digit b'] show ?thesis
        by (auto simp: scan_exp_part_def split: if_splits)
    qed
  qed
  assume a: "scan_number cs = Some (v, rest)"
  define body where "body = (if cs \<noteq> [] \<and> hd cs = 45 then tl cs else cs)"
  have body: "length body \<le> length cs"
    by (simp add: body_def)
  from a obtain ds r1 where i: "scan_int_part body = Some (ds, r1)"
    by (auto simp: scan_number_def Let_def body_def split: option.splits)
  obtain fs r2 where f: "scan_frac_part r1 = (fs, r2)"
    by (cases "scan_frac_part r1")
  obtain ex r3 where e: "scan_exp_part r2 = (ex, r3)"
    by (cases "scan_exp_part r2")
  have "rest = r3"
    using a i f e by (auto simp: scan_number_def Let_def body_def split: if_splits)
  then show ?thesis
    using ip [OF i] fp [OF f] ep [OF e] body by simp
qed

lemma scan_literal_shorter: "scan_literal cs = Some (v, rest) \<Longrightarrow> length rest < length cs"
  by (cases cs) (auto simp: scan_literal_def starts_with_def py_def dest: scan_number_shorter split: if_splits)

function lex :: "pystr \<Rightarrow> token list option" where
  "lex [] = Some []"
| "lex (c # cs) =
     (if is_ws c then lex cs
      else if c = 123 then map_option ((#) LBrace) (lex cs)
      else if c = 125 then map_option ((#) RBrace) (lex cs)
      else if c = 91 then map_option ((#) LBracket) (lex cs)
      else if c = 93 then map_option ((#) RBracket) (lex cs)
      else if c = 58 then map_option ((#) Colon) (lex cs)
      else if c = 44 then map_option ((#) Comma) (lex cs)
      else if c = 34 then
        (case scanstring cs of
           None \<Rightarrow> None
         | Some (s, rest) \<Rightarrow> map_option ((#) (TString s)) (lex rest))
      else
        (case scan_literal (c # cs) of
           None \<Rightarrow> None
         | Some (v, rest) \<Rightarrow> map_option ((#) (TValue v)) (lex rest)))"
  by pat_completeness auto
termination
proof (relation "measure length")
  fix c cs x2 x y
  assume "scanstring cs = Some x2" and "(x, y) = x2"
  then show "(y, c # cs) \<in> measure length"
    using scanstring_shorter [of cs x y] by simp
next
  fix c cs x2 x y
  assume "scan_literal (c # cs) = Some x2" and "(x, y) = x2"
  then show "(y, c # cs) \<in> measure length"
    using scan_literal_shorter [of "c # cs" x y] by simp
qed auto


text \<open>
  The stack holds the arrays and objects that are still open: the elements read so far
  (latest first), and for an object the key whose value is being read.
\<close>

datatype frame =
    FArray "json list"
  | FObject "(pystr \<times> json) list"
  | FMember "(pystr \<times> json) list" pystr

datatype expect =
    Value | ValueOrEnd | KeyOrEnd | Key | KeyColon pystr | Separator | Finished json

type_synonym pstate = "frame list \<times> expect"

fun complete :: "json \<Rightarrow> frame list \<Rightarrow> pstate option" where
  "complete v [] = Some ([], Finished v)"
| "complete v (FArray acc # st) = Some (FArray (v # acc) # st, Separator)"
| "complete v (FMember kvs k # st) = Some (FObject ((k, v) # kvs) # st, Separator)"
| "complete v (FObject kvs # st) = None"

fun begin_value :: "frame list \<Rightarrow> token \<Rightarrow> pstate option" where
  "begin_value st (TValue v) = complete v st"
| "begin_value st (TString s) = complete (JStr s) st"
| "begin_value st LBracket = Some (FArray [] # st, ValueOrEnd)"
| "begin_value st LBrace = Some (FObject [] # st, KeyOrEnd)"
| "begin_value st _ = None"

fun close_array :: "frame list \<Rightarrow> pstate option" where
  "close_array (FArray acc # st) = complete (JArr (rev acc)) st"
| "close_array _ = None"

fun close_object :: "frame list \<Rightarrow> pstate option" where
  "close_object (FObject kvs # st) = complete (JObj (rev kvs)) st"
| "close_object _ = None"

fun step :: "pstate \<Rightarrow> token \<Rightarrow> pstate option" where
  "step (st, Value) t = begin_value st t"
| "step (st, ValueOrEnd) t = (if t = RBracket then close_array st else begin_value st t)"
| "step (st, KeyOrEnd) t =
     (case t of TString k \<Rightarrow> Some (st, KeyColon k) | RBrace \<Rightarrow> close_object st | _ \<Rightarrow> None)"
| "step (st, Key) t = (case t of TString k \<Rightarrow> Some (st, KeyColon k) | _ \<Rightarrow> None)"
| "step (st, KeyColon k) t =
     (case (t, st) of
        (Colon, FObject kvs # st') \<Rightarrow> Some (FMember kvs k # st', Value)
      | _ \<Rightarrow> None)"
| "step (st, Separator) t =
     (case t of
        Comma \<Rightarrow>
          (case st of
             FArray acc # st' \<Rightarrow> Some (st, Value)
           | FObject kvs # st' \<Rightarrow> Some (st, Key)
           | _ \<Rightarrow> None)
      | RBracket \<Rightarrow> close_array st
      | RBrace \<Rightarrow> close_object st
      | _ \<Rightarrow> None)"
| "step (st, Finished v) t = None"

fun run :: "pstate \<Rightarrow> token list \<Rightarrow> pstate option" where
  "run s [] = Some s"
| "run s (t # ts) = (case step s t of None \<Rightarrow> None | Some s' \<Rightarrow> run s' ts)"

definition json_loads :: "pystr \<Rightarrow> json option" where
  "json_loads text =
     (case lex text of
        None \<Rightarrow> None
      | Some ts \<Rightarrow>
          (case run ([], Value) ts of
             Some ([], Finished v) \<Rightarrow> Some v
           | _ \<Rightarrow> None))"


section \<open>\<^verbatim>\<open>summarize_transcript\<close>\<close>

text \<open>
  \<^verbatim>\<open>d.get(key, default)\<close>; any value that is not a \<^verbatim>\<open>dict\<close> has no \<^verbatim>\<open>get\<close> and raises
  \<^verbatim>\<open>AttributeError\<close>.
\<close>

definition dict_get :: "(pystr \<times> json) list \<Rightarrow> pystr \<Rightarrow> json \<Rightarrow> json" where
  "dict_get kvs k d = (case map_of (rev kvs) k of Some v \<Rightarrow> v | None \<Rightarrow> d)"

definition py_get :: "json \<Rightarrow> pystr \<Rightarrow> json \<Rightarrow> error + json" where
  "py_get x k d = (case x of JObj kvs \<Rightarrow> Inr (dict_get kvs k d) | _ \<Rightarrow> Inl AttributeError)"

text \<open>
  \<^verbatim>\<open>data.get(k, []) if isinstance(data.get(k), list) else []\<close>
\<close>

fun elements :: "json \<Rightarrow> json list" where
  "elements (JArr xs) = xs"
| "elements _ = []"

definition list_field :: "json \<Rightarrow> pystr \<Rightarrow> error + json list" where
  "list_field data k =
     (case py_get data k JNull of
        Inl e \<Rightarrow> Inl e
      | Inr v \<Rightarrow>
          (case v of
             JArr xs \<Rightarrow> (case py_get data k (JArr []) of Inl e \<Rightarrow> Inl e | Inr w \<Rightarrow> Inr (elements w))
           | _ \<Rightarrow> Inr []))"

record ActionItem =
  description :: pystr
  owner :: "json option"
  due_date :: "json option"

record MeetingMinutes =
  date :: pystr
  summary :: "json list"
  decisions :: "json list"
  action_items :: "ActionItem list"
  timeline :: "json list"
  transcript :: pystr

text \<open>
  \<^verbatim>\<open>
  action_items = [
      ActionItem(
          description=item.get("description", "").strip(),
          owner=item.get("owner") or None,
          due_date=item.get("due_date") or None,
      )
      for item in raw_actions
      if isinstance(item, dict) and item.get("description")
  ]
  \<close>
  \<open>action_item\<close> is one turn of the comprehension: \<open>Inr None\<close> when the element is skipped,
  \<^verbatim>\<open>AttributeError\<close> when its description is true but has no \<^verbatim>\<open>strip\<close>.
\<close>

definition or_none :: "json \<Rightarrow> json option" where
  "or_none v = (if truthy v then Some v else None)"

definition action_item :: "json \<Rightarrow> error + ActionItem option" where
  "action_item item =
     (case item of
        JObj kvs \<Rightarrow>
          if truthy (dict_get kvs (py ''description'') JNull) then
            (case dict_get kvs (py ''description'') (JStr []) of
               JStr s \<Rightarrow>
                 Inr (Some \<lparr>description = strip s,
                            owner = or_none (dict_get kvs (py ''owner'') JNull),
                            due_date = or_none (dict_get kvs (py ''due_date'') JNull)\<rparr>)
             | _ \<Rightarrow> Inl AttributeError)
          else Inr None
      | _ \<Rightarrow> Inr None)"

fun collect_items :: "json list \<Rightarrow> error + ActionItem list" where
  "collect_items [] = Inr []"
| "collect_items (item # rest) =
     (case action_item item of
        Inl e \<Rightarrow> Inl e
      | Inr None \<Rightarrow> collect_items rest
      | Inr (Some a) \<Rightarrow>
          (case collect_items rest of Inl e \<Rightarrow> Inl e | Inr as \<Rightarrow> Inr (a # as)))"

text \<open>
  \<^verbatim>\<open>
  data = {}
  for candidate in (content, content.strip().strip(<backquote>)):
      try:
          data = json.loads(candidate)
          break
      except json.JSONDecodeError:
          continue
  \<close>
\<close>

definition decode_payload :: "pystr \<Rightarrow> json" where
  "decode_payload content =
     (case json_loads content of
        Some v \<Rightarrow> v
      | None \<Rightarrow>
          (case json_loads (strip_backticks (strip content)) of
             Some v \<Rightarrow> v
           | None \<Rightarrow> JObj []))"

text \<open>
  The rest of \<^verbatim>\<open>summarize_transcript\<close>: the four fields are read in the order of the source,
  and the minutes carry the caller's date and transcript.
\<close>

definition build_minutes :: "json \<Rightarrow> pystr \<Rightarrow> pystr \<Rightarrow> error + MeetingMinutes" where
  "build_minutes data transcript' meeting_date =
     (case list_field data (py ''summary'') of Inl e \<Rightarrow> Inl e | Inr summary' \<Rightarrow>
      case list_field data (py ''decisions'') of Inl e \<Rightarrow> Inl e | Inr decisions' \<Rightarrow>
      case list_field data (py ''action_items'') of Inl e \<Rightarrow> Inl e | Inr raw_actions \<Rightarrow>
      case collect_items raw_actions of Inl e \<Rightarrow> Inl e | Inr items \<Rightarrow>
      case list_field data (py ''timeline'') of Inl e \<Rightarrow> Inl e | Inr timeline' \<Rightarrow>
        Inr \<lparr>date = meeting_date, summary = summary', decisions = decisions',
             action_items = items, timeline = timeline', transcript = transcript'\<rparr>)"

text \<open>
  The chat completion is a function of the model and of the user message (the system
  prompt is a constant of the module); it returns \<^verbatim>\<open>choices[0].message.content\<close>, which may
  be \<^verbatim>\<open>None\<close>, or raises. \<^verbatim>\<open>content or "{}"\<close> replaces \<^verbatim>\<open>None\<close> and the empty string.
\<close>

type_synonym chat_client = "pystr \<Rightarrow> pystr \<Rightarrow> error + pystr option"

definition user_message :: "pystr \<Rightarrow> pystr \<Rightarrow> pystr \<Rightarrow> pystr" where
  "user_message meeting_title meeting_date transcript' =
     py ''Meeting: '' @ meeting_title @ [10] @ py ''Date: '' @ meeting_date @ [10] @
     py ''Transcript:'' @ [10] @ transcript'"

definition summarize_transcript ::
  "chat_client \<Rightarrow> pystr \<Rightarrow> pystr \<Rightarrow> pystr \<Rightarrow> pystr \<Rightarrow> error + MeetingMinutes" where
  "summarize_transcript client transcript' model meeting_title meeting_date =
     (case client model (user_message meeting_title meeting_date transcript') of
        Inl e \<Rightarrow> Inl e
      | Inr reply \<Rightarrow>
          (let content = (case reply of None \<Rightarrow> py ''{}'' | Some c \<Rightarrow> if c = [] then py ''{}'' else c)
           in build_minutes (decode_payload content) transcript' meeting_date))"

text \<open>
  The client that answers every request with the same payload.
\<close>

definition replies :: "pystr \<Rightarrow> chat_client" where
  "replies payload = (\<lambda>model message. Inr (Some payload))"


section \<open>\<^verbatim>\<open>transcribe_audio\<close>\<close>

text \<open>
  What the file system holds at \<^verbatim>\<open>audio_path\<close>: nothing, something that is not a file, or
  an audio file whose decoded length is given in milliseconds.
\<close>

datatype path_state = Missing | NotAFile | AudioFile nat

definition validate_audio_path :: "pystr \<Rightarrow> path_state \<Rightarrow> error + unit" where
  "validate_audio_path audio_path st =
     (case st of
        Missing \<Rightarrow> Inl (SystemExit (py ''Audio file not found: '' @ audio_path))
      | NotAFile \<Rightarrow> Inl (SystemExit (py ''Audio path is not a file: '' @ audio_path))
      | AudioFile L \<Rightarrow> Inr ())"

text \<open>
  A call of \<^verbatim>\<open>client.audio.transcriptions.create\<close> sends either one exported segment or the
  file itself, with the prompt and the language unchanged. The client maps a request to the
  recognised text or to the exception it raises.
\<close>

datatype upload = Segment span | WholeFile

record request =
  file_arg :: upload
  prompt :: "pystr option"
  language :: "pystr option"

type_synonym whisper = "request \<Rightarrow> error + pystr"

text \<open>
  \<^verbatim>\<open>sep.join(xs)\<close>
\<close>

fun join :: "pystr \<Rightarrow> pystr list \<Rightarrow> pystr" where
  "join sep [] = []"
| "join sep [x] = x"
| "join sep (x # y # ys) = x @ sep @ join sep (y # ys)"

text \<open>
  The loop over the segments. \<open>calls\<close> is the list of the requests sent so far and
  \<open>segments\<close> the list of the texts received, as in the source; an exception of the client
  ends the loop at once.
\<close>

fun transcribe_segments ::
  "whisper \<Rightarrow> pystr option \<Rightarrow> pystr option \<Rightarrow> span list \<Rightarrow> request list \<Rightarrow> pystr list \<Rightarrow>
     request list \<times> (error + pystr list)" where
  "transcribe_segments client prompt' language' [] calls segments = (calls, Inr segments)"
| "transcribe_segments client prompt' language' (segment # rest) calls segments =
     (let req = \<lparr>file_arg = Segment segment, prompt = prompt', language = language'\<rparr> in
      case client req of
        Inl e \<Rightarrow> (calls @ [req], Inl e)
      | Inr text \<Rightarrow>
          transcribe_segments client prompt' language' rest (calls @ [req]) (segments @ [text]))"

text \<open>
  \<^verbatim>\<open>
  audio_path = validate_audio_path(audio_path)
  if chunk_seconds and chunk_seconds > 0:
      segments = []
      for segment in chunk_audio(audio_path, chunk_seconds):
          ... response = client.audio.transcriptions.create(file=<segment>, ...)
          segments.append(response.text)
      return <newline>.join(segments)
  ... response = client.audio.transcriptions.create(file=audio_file, ...)
  return response.text
  \<close>
  The model returns the requests that were sent together with the result.
\<close>

definition transcribe_audio ::
  "whisper \<Rightarrow> pystr \<times> path_state \<Rightarrow> pystr option \<Rightarrow> int option \<Rightarrow> pystr option \<Rightarrow>
     request list \<times> (error + pystr)" where
  "transcribe_audio client audio_path prompt' chunk_seconds language' =
     (case validate_audio_path (fst audio_path) (snd audio_path) of
        Inl e \<Rightarrow> ([], Inl e)
      | Inr _ \<Rightarrow>
          (case chunk_seconds of
             Some n \<Rightarrow>
               if n \<noteq> 0 \<and> 0 < n then
                 (case chunk_audio (case snd audio_path of AudioFile L \<Rightarrow> L | _ \<Rightarrow> 0) n of
                    Inl e \<Rightarrow> ([], Inl e)
                  | Inr segs \<Rightarrow>
                      (case transcribe_segments client prompt' language' segs [] [] of
                         (calls, Inl e) \<Rightarrow> (calls, Inl e)
                       | (calls, Inr segments) \<Rightarrow> (calls, Inr (join [10] segments))))
               else
                 (let req = \<lparr>file_arg = WholeFile, prompt = prompt', language = language'\<rparr>
                  in (case client req of Inl e \<Rightarrow> ([req], Inl e) | Inr text \<Rightarrow> ([req], Inr text)))
           | None \<Rightarrow>
               (let req = \<lparr>file_arg = WholeFile, prompt = prompt', language = language'\<rparr>
                in (case client req of Inl e \<Rightarrow> ([req], Inl e) | Inr text \<Rightarrow> ([req], Inr text)))))"

text \<open>
  The request that the loop sends for a segment.
\<close>

definition segment_request :: "pystr option \<Rightarrow> pystr option \<Rightarrow> span \<Rightarrow> request" where
  "segment_request prompt' language' s = \<lparr>file_arg = Segment s, prompt = prompt', language = language'\<rparr>"

text \<open>
  An example client: it raises an API error for the segment that starts at \<open>fail_ms\<close> and
  answers every other request with the same text.
\<close>

definition failing_at :: "nat \<Rightarrow> whisper" where
  "failing_at fail_ms req =
     (case file_arg req of
        Segment s \<Rightarrow>
          if start_ms s = fail_ms then Inl (ApiError (py ''connection reset'')) else Inr (py ''ok'')
      | WholeFile \<Rightarrow> Inr (py ''ok''))"

section \<open>\<^verbatim>\<open>MeetingMinutes.to_markdown\<close>\<close>

text \<open>
  A value \<open>x\<close> between the braces of an f-string is \<open>x\<close> itself for a string; the text of any
  other value is left to the parameter \<open>other\<close>. The separator after the owner is the five
  code points the source file holds between the quotes (space, U+00E2, U+20AC, U+201D,
  space).
\<close>

definition fstr :: "(json \<Rightarrow> pystr) \<Rightarrow> json \<Rightarrow> pystr" where
  "fstr other v = (case v of JStr s \<Rightarrow> s | _ \<Rightarrow> other v)"

definition bullet :: "(json \<Rightarrow> pystr) \<Rightarrow> json \<Rightarrow> pystr" where
  "bullet other item = py ''- '' @ fstr other item"

definition action_line :: "(json \<Rightarrow> pystr) \<Rightarrow> ActionItem \<Rightarrow> pystr" where
  "action_line other action =
     (let owner_text =
            (case owner action of
               Some v \<Rightarrow> if truthy v then fstr other v @ [32, 226, 8364, 8221, 32] else []
             | None \<Rightarrow> []);
          due_text =
            (case due_date action of
               Some v \<Rightarrow> if truthy v then py '' (due '' @ fstr other v @ py '')'' else []
             | None \<Rightarrow> [])
      in py ''- [ ] '' @ owner_text @ description action @ due_text)"

text \<open>
  The list \<^verbatim>\<open>lines\<close> as \<^verbatim>\<open>to_markdown\<close> builds it, and the document: the lines joined by
  line feeds, stripped, with one line feed appended.
\<close>

definition markdown_lines :: "(json \<Rightarrow> pystr) \<Rightarrow> MeetingMinutes \<Rightarrow> pystr \<Rightarrow> pystr list" where
  "markdown_lines other m title =
     [py ''# '' @ title @ py '' - '' @ date m, []] @
     (if summary m \<noteq> [] then [py ''## Summary''] @ map (bullet other) (summary m) @ [[]] else []) @
     (if decisions m \<noteq> [] then [py ''## Decisions''] @ map (bullet other) (decisions m) @ [[]] else []) @
     (if action_items m \<noteq> [] then
        [py ''## Action Items''] @ map (action_line other) (action_items m) @ [[]] else []) @
     (if timeline m \<noteq> [] then [py ''## Timeline''] @ map (bullet other) (timeline m) @ [[]] else []) @
     [py ''## Full Transcript'', transcript m]"

definition to_markdown :: "(json \<Rightarrow> pystr) \<Rightarrow> MeetingMinutes \<Rightarrow> pystr \<Rightarrow> pystr" where
  "to_markdown other m title = strip (join [10] (markdown_lines other m title)) @ [10]"

section \<open>\<^verbatim>\<open>main\<close>\<close>

text \<open>
  \<^verbatim>\<open>main\<close>: the key, the transcript, the minutes, the document. The result is the text
  written to the output file, or the exception that ends the run.
\<close>

definition require_api_key :: "pystr option \<Rightarrow> error + pystr" where
  "require_api_key env =
     (case env of
        None \<Rightarrow> Inl (SystemExit (py ''Missing OPENAI_API_KEY environment variable.''))
      | Some k \<Rightarrow>
          if k = [] then Inl (SystemExit (py ''Missing OPENAI_API_KEY environment variable.''))
          else Inr k)"

record args =
  audio_arg :: "pystr \<times> path_state"
  title_arg :: pystr
  date_arg :: pystr
  chunk_seconds_arg :: "int option"
  language_arg :: "pystr option"
  whisper_prompt :: "pystr option"
  summary_model :: pystr

definition main :: "pystr option \<Rightarrow> whisper \<Rightarrow> chat_client \<Rightarrow> (json \<Rightarrow> pystr) \<Rightarrow> args \<Rightarrow> error + pystr" where
  "main env whisper_client chat other a =
     (case require_api_key env of
        Inl e \<Rightarrow> Inl e
      | Inr key \<Rightarrow>
          (case snd (transcribe_audio whisper_client (audio_arg a) (whisper_prompt a)
                       (chunk_seconds_arg a) (language_arg a)) of
             Inl e \<Rightarrow> Inl e
           | Inr transcript' \<Rightarrow>
               (case summarize_transcript chat transcript' (summary_model a) (title_arg a) (date_arg a) of
                  Inl e \<Rightarrow> Inl e
                | Inr minutes \<Rightarrow> Inr (to_markdown other minutes (title_arg a)))))"

text \<open>
  Example arguments: an audio file of 2.5 seconds and the defaults of the parser.
\<close>

definition example_args :: "int option \<Rightarrow> args" where
  "example_args chunk_seconds =
     \<lparr>audio_arg = (py ''standup.mp3'', AudioFile 2500), title_arg = py ''Meeting Minutes'',
      date_arg = py ''2024-05-01'', chunk_seconds_arg = chunk_seconds, language_arg = None,
      whisper_prompt = None, summary_model = py ''gpt-4o-mini''\<rparr>"

section \<open>Properties of \<^verbatim>\<open>chunk_audio\<close>\<close>

lemma range_up_shape:
  "0 < k \<Longrightarrow> range_up i n k = map (\<lambda>j. i + j * k) [0..<(n - i + k - 1) div k]"
proof (induction i n k rule: range_up.induct)
  case (1 i n k)
  show ?case
  proof (cases "i < n")
    case False
    then have "(n - i + k - 1) div k = 0"
      using "1.prems" by simp
    with False show ?thesis
      by (simp add: range_up.simps)
  next
    case True
    define m where "m = (n - (i + k) + k - 1) div k"
    have m: "m = (n - i - 1) div k"
    proof (cases "i + k \<le> n")
      case True
      then have "n - (i + k) + k - 1 = n - i - 1"
        by arith
      then show ?thesis
        by (simp only: m_def)
    next
      case False
      then have "n - (i + k) + k - 1 < k" and "n - i - 1 < k"
        using "1.prems" by arith+
      then show ?thesis
        by (simp only: m_def div_less)
    qed
    define d where "d = n - i - 1"
    have e: "n - i + k - 1 = d + k"
      using True by (simp add: d_def)
    have "(d + k) div k = Suc (d div k)"
      using "1.prems" by simp
    then have step: "(n - i + k - 1) div k = Suc m"
      unfolding e m d_def .
    have "range_up i n k = i # range_up (i + k) n k"
      using True "1.prems" by (simp add: range_up.simps)
    also have "range_up (i + k) n k = map (\<lambda>j. i + k + j * k) [0..<m]"
      using "1.IH" True "1.prems" by (simp add: m_def)
    also have "i # map (\<lambda>j. i + k + j * k) [0..<m] = map (\<lambda>j. i + j * k) [0..<Suc m]"
      by (simp add: upt_rec [of 0 "Suc m"] map_Suc_upt [symmetric] del: upt_Suc upt.simps)
    finally show ?thesis
      by (simp only: step)
  qed
qed

lemma chunk_count_upper:
  assumes "0 < (k::nat)"
  shows "(L::nat) \<le> ((L + k - 1) div k) * k"
proof -
  define t where "t = L + k - 1"
  have "t = (t div k) * k + t mod k"
    by simp
  moreover have "t mod k < k"
    using assms by simp
  ultimately have "t < (t div k) * k + k"
    by linarith
  then show ?thesis
    using assms by (simp add: t_def)
qed

lemma chunk_count_lower:
  assumes "0 < (k::nat)" and "(j::nat) < (L + k - 1) div k"
  shows "j * k < L"
proof -
  define t where "t = L + k - 1"
  have "Suc j \<le> t div k"
    using assms by (simp add: t_def)
  then have "Suc j * k \<le> (t div k) * k"
    by (rule mult_le_mono1)
  also have "\<dots> \<le> t"
    by simp
  finally have "j * k + k \<le> L + k - 1"
    by (simp add: t_def)
  then show ?thesis
    using assms by linarith
qed

lemma ceil_div_nat:
  assumes "0 < (k::nat)"
  shows "nat \<lceil>real L / real k\<rceil> = (L + k - 1) div k"
proof -
  define m where "m = (L + k - 1) div k"
  have up: "real L \<le> real m * real k"
    using chunk_count_upper [OF assms, of L] unfolding m_def
    by (metis of_nat_le_iff of_nat_mult)
  have lo: "real m - 1 < real L / real k"
  proof (cases m)
    case 0
    then show ?thesis by simp (smt (verit) divide_nonneg_nonneg of_nat_0_le_iff)
  next
    case (Suc j)
    then have "j * k < L"
      using chunk_count_lower [OF assms, of j L] by (simp add: m_def)
    then have "real j * real k < real L"
      by (metis of_nat_less_iff of_nat_mult)
    then have "real j < real L / real k"
      using assms by (simp add: pos_less_divide_eq)
    then show ?thesis
      using Suc by simp
  qed
  have "\<lceil>real L / real k\<rceil> = int m"
  proof (rule ceiling_unique)
    show "of_int (int m) - 1 < real L / real k"
      using lo by simp
    show "real L / real k \<le> of_int (int m)"
      using up assms by (simp add: pos_divide_le_eq)
  qed
  then show ?thesis
    by (simp add: m_def)
qed


lemma chunk_audio_shape:
  assumes "0 < chunk_seconds"
  shows "chunk_audio L chunk_seconds =
           Inr (map (\<lambda>j. \<lparr>start_ms = j * nat (chunk_seconds * 1000),
                           stop_ms = min (j * nat (chunk_seconds * 1000) + nat (chunk_seconds * 1000)) L\<rparr>)
                    [0..<(L + nat (chunk_seconds * 1000) - 1) div nat (chunk_seconds * 1000)])"
proof -
  define k where "k = nat (chunk_seconds * 1000)"
  have k: "0 < k"
    using assms by (simp add: k_def)
  have pos: "chunk_seconds * 1000 \<noteq> 0" "\<not> chunk_seconds * 1000 < 0"
    using assms by simp_all
  have starts: "range_up 0 L k = map (\<lambda>j. j * k) [0..<(L + k - 1) div k]"
    using range_up_shape [OF k, of 0 L] by simp
  have "map (\<lambda>start. slice L start (start + k)) (map (\<lambda>j. j * k) [0..<(L + k - 1) div k])
        = map (\<lambda>j. \<lparr>start_ms = j * k, stop_ms = min (j * k + k) L\<rparr>) [0..<(L + k - 1) div k]"
  proof -
    have "slice L (j * k) (j * k + k) = \<lparr>start_ms = j * k, stop_ms = min (j * k + k) L\<rparr>"
      if "j < (L + k - 1) div k" for j
      using chunk_count_lower [OF k that] by (simp add: slice_def)
    then show ?thesis
      by simp
  qed
  then show ?thesis
    using pos by (simp add: chunk_audio_def py_range_def Let_def starts k_def [symmetric])
qed

text \<open>
  Claim C5. For a positive \<^verbatim>\<open>chunk_seconds\<close> (stride \<open>chunk_seconds * 1000\<close> ms) and an audio of
  \<open>L\<close> ms, \<open>chunk_audio\<close> yields exactly \<open>\<lceil>L / stride\<rceil>\<close> segments; segment \<open>i\<close> starts at
  \<open>i * stride\<close> and is not empty; every segment but the last is \<open>stride\<close> long and ends where
  the next one starts; the first starts at 0, the last ends at \<open>L\<close> and is \<open>L mod stride\<close> long
  (\<open>stride\<close> when that is 0); and for \<open>L = 0\<close> nothing is yielded.
\<close>

theorem chunk_audio_segments:
  assumes "0 < chunk_seconds"
  shows "\<exists>chunks. chunk_audio L chunk_seconds = Inr chunks \<and>
     (let stride = nat (chunk_seconds * 1000); n = length chunks in
        n = nat \<lceil>real L / real stride\<rceil> \<and>
        (\<forall>i < n. start_ms (chunks ! i) = i * stride \<and> start_ms (chunks ! i) < stop_ms (chunks ! i)) \<and>
        (\<forall>i. Suc i < n \<longrightarrow>
           stop_ms (chunks ! i) = start_ms (chunks ! Suc i) \<and>
           stop_ms (chunks ! i) - start_ms (chunks ! i) = stride) \<and>
        (0 < n \<longrightarrow>
           start_ms (chunks ! 0) = 0 \<and> stop_ms (chunks ! (n - 1)) = L \<and>
           stop_ms (chunks ! (n - 1)) - start_ms (chunks ! (n - 1)) =
             (if L mod stride = 0 then stride else L mod stride)) \<and>
        (L = 0 \<longrightarrow> chunks = []))"
proof -
  define k where "k = nat (chunk_seconds * 1000)"
  define m where "m = (L + k - 1) div k"
  define chunks where
    "chunks = map (\<lambda>j. \<lparr>start_ms = j * k, stop_ms = min (j * k + k) L\<rparr>) [0..<m]"
  have k: "0 < k"
    using assms by (simp add: k_def)
  have run: "chunk_audio L chunk_seconds = Inr chunks"
    using chunk_audio_shape [OF assms, of L] by (simp add: chunks_def m_def k_def)
  have len: "length chunks = m"
    by (simp add: chunks_def)
  have nth: "chunks ! i = \<lparr>start_ms = i * k, stop_ms = min (i * k + k) L\<rparr>" if "i < m" for i
    using that by (simp add: chunks_def)
  have below: "i * k < L" if "i < m" for i
    using chunk_count_lower [OF k, of i L] that by (simp add: m_def)
  have above: "L \<le> m * k"
    using chunk_count_upper [OF k, of L] by (simp add: m_def)
  have count: "m = nat \<lceil>real L / real k\<rceil>"
    using ceil_div_nat [OF k, of L] by (simp add: m_def)
  have starts: "start_ms (chunks ! i) = i * k \<and> start_ms (chunks ! i) < stop_ms (chunks ! i)"
    if "i < m" for i
    using nth [OF that] below [OF that] k by simp
  have inner: "stop_ms (chunks ! i) = start_ms (chunks ! Suc i) \<and>
               stop_ms (chunks ! i) - start_ms (chunks ! i) = k" if "Suc i < m" for i
  proof -
    have "i < m"
      using that by simp
    moreover have "i * k + k < L"
      using below [OF that] by (simp add: add.commute)
    ultimately show ?thesis
      using nth [of i] nth [OF that] by (simp add: add.commute)
  qed
  have ends: "start_ms (chunks ! 0) = 0 \<and> stop_ms (chunks ! (m - 1)) = L \<and>
              stop_ms (chunks ! (m - 1)) - start_ms (chunks ! (m - 1)) =
                (if L mod k = 0 then k else L mod k)" if "0 < m"
  proof -
    define j where "j = m - 1"
    have j: "j < m" "m = Suc j"
      using that by (simp_all add: j_def)
    have lo: "j * k < L"
      using below [OF j(1)] .
    have hi: "L \<le> j * k + k"
      using above j(2) by (simp add: add.commute)
    have stop: "stop_ms (chunks ! j) = L"
      using nth [OF j(1)] hi by simp
    have start: "start_ms (chunks ! j) = j * k"
      using nth [OF j(1)] by simp
    obtain r where r: "L = j * k + r" "0 < r" "r \<le> k"
      using lo hi by (metis add_le_cancel_left less_imp_add_positive)
    have "(if L mod k = 0 then k else L mod k) = r"
    proof (cases "r = k")
      case True
      then show ?thesis
        using r k by simp
    next
      case False
      then have "r < k"
        using r by simp
      then show ?thesis
        using r by simp
    qed
    moreover have "L - j * k = r"
      using r by simp
    ultimately show ?thesis
      using nth [OF that] stop start by (simp add: j_def)
  qed
  have empty: "chunks = []" if "L = 0"
    using that k by (simp add: chunks_def m_def)
  have body: "m = nat \<lceil>real L / real k\<rceil> \<and>
        (\<forall>i < m. start_ms (chunks ! i) = i * k \<and> start_ms (chunks ! i) < stop_ms (chunks ! i)) \<and>
        (\<forall>i. Suc i < m \<longrightarrow>
           stop_ms (chunks ! i) = start_ms (chunks ! Suc i) \<and>
           stop_ms (chunks ! i) - start_ms (chunks ! i) = k) \<and>
        (0 < m \<longrightarrow>
           start_ms (chunks ! 0) = 0 \<and> stop_ms (chunks ! (m - 1)) = L \<and>
           stop_ms (chunks ! (m - 1)) - start_ms (chunks ! (m - 1)) =
             (if L mod k = 0 then k else L mod k)) \<and>
        (L = 0 \<longrightarrow> chunks = [])"
    using count starts inner ends empty by blast
  have "chunk_audio L chunk_seconds = Inr chunks \<and>
     (let stride = k; n = length chunks in
        n = nat \<lceil>real L / real stride\<rceil> \<and>
        (\<forall>i < n. start_ms (chunks ! i) = i * stride \<and> start_ms (chunks ! i) < stop_ms (chunks ! i)) \<and>
        (\<forall>i. Suc i < n \<longrightarrow>
           stop_ms (chunks ! i) = start_ms (chunks ! Suc i) \<and>
           stop_ms (chunks ! i) - start_ms (chunks ! i) = stride) \<and>
        (0 < n \<longrightarrow>
           start_ms (chunks ! 0) = 0 \<and> stop_ms (chunks ! (n - 1)) = L \<and>
           stop_ms (chunks ! (n - 1)) - start_ms (chunks ! (n - 1)) =
             (if L mod stride = 0 then stride else L mod stride)) \<and>
        (L = 0 \<longrightarrow> chunks = []))"
    unfolding Let_def len using run body by blast
  then show ?thesis
    unfolding k_def by (rule exI)
qed

theorem chunk_audio_segments_witness:
  "(0::int) < 1 \<and> chunk_audio 2500 1 =
     Inr [\<lparr>start_ms = 0, stop_ms = 1000\<rparr>, \<lparr>start_ms = 1000, stop_ms = 2000\<rparr>,
          \<lparr>start_ms = 2000, stop_ms = 2500\<rparr>] \<and>
   nat \<lceil>real 2500 / real (nat (1 * 1000))\<rceil> = 3"
proof -
  have pos: "(0::int) < 1"
    by simp
  obtain chunks where c: "chunk_audio 2500 1 = Inr chunks"
    and n: "length chunks = nat \<lceil>real 2500 / real (nat (1 * 1000))\<rceil>"
    using chunk_audio_segments [OF pos, of 2500] by (auto simp: Let_def)
  have "chunk_audio 2500 1 =
     Inr [\<lparr>start_ms = 0, stop_ms = 1000\<rparr>, \<lparr>start_ms = 1000, stop_ms = 2000\<rparr>,
          \<lparr>start_ms = 2000, stop_ms = 2500\<rparr>]"
    by (simp add: chunk_audio_def py_range_def slice_def range_up.simps)
  with c n pos show ?thesis
    by auto
qed

section \<open>Properties of \<^verbatim>\<open>summarize_transcript\<close>\<close>

text \<open>
  The chat client of these properties is \<open>replies payload\<close>, which answers every request with
  the text \<open>payload\<close>. The defining equations below are the ones a concrete payload is
  evaluated with.
\<close>

lemmas eval_defs = json_loads_def py_def is_ws_def push_def scan_literal_def starts_with_def
  scan_number_def scan_int_part_def is_digit_def scan_frac_part_def scan_exp_part_def
  digits_value_def summarize_transcript_def replies_def decode_payload_def build_minutes_def
  list_field_def py_get_def dict_get_def action_item_def or_none_def strip_def strip_chars_def
  strip_backticks_def isspace_def Let_def

lemma dict_get_present:
  "truthy (dict_get kvs k JNull) \<Longrightarrow> dict_get kvs k d = dict_get kvs k JNull"
  by (auto simp: dict_get_def split: option.splits)

lemma action_item_Some:
  assumes "action_item x = Inr (Some a)"
  shows "\<exists>kvs s. x = JObj kvs \<and> dict_get kvs (py ''description'') JNull = JStr s \<and> s \<noteq> [] \<and>
           a = \<lparr>description = strip s,
                 owner = or_none (dict_get kvs (py ''owner'') JNull),
                 due_date = or_none (dict_get kvs (py ''due_date'') JNull)\<rparr>"
proof (cases x)
  case (JObj kvs)
  let ?d = "dict_get kvs (py ''description'') JNull"
  have t: "truthy ?d"
    using assms JObj by (auto simp: action_item_def split: if_splits)
  then have same: "dict_get kvs (py ''description'') (JStr []) = ?d"
    by (rule dict_get_present)
  from assms JObj t same obtain s where s: "?d = JStr s"
    by (cases ?d) (auto simp: action_item_def)
  with t have "s \<noteq> []"
    by simp
  moreover have "a = \<lparr>description = strip s,
                 owner = or_none (dict_get kvs (py ''owner'') JNull),
                 due_date = or_none (dict_get kvs (py ''due_date'') JNull)\<rparr>"
    using assms JObj t same s by (simp add: action_item_def)
  ultimately show ?thesis
    using JObj s by blast
qed (use assms in \<open>auto simp: action_item_def\<close>)

lemma collect_items_member:
  "collect_items xs = Inr as \<Longrightarrow> a \<in> set as \<Longrightarrow> \<exists>x \<in> set xs. action_item x = Inr (Some a)"
proof (induction xs arbitrary: as)
  case Nil
  then show ?case by simp
next
  case (Cons x xs)
  then show ?case
    by (auto split: sum.splits option.splits)
qed

lemma list_field_object:
  "list_field (JObj members) k = Inr (elements (dict_get members k JNull))"
proof (cases "dict_get members k JNull")
  case (JArr xs)
  then have "dict_get members k (JArr []) = JArr xs"
    by (auto simp: dict_get_def split: option.splits)
  with JArr show ?thesis
    by (simp add: list_field_def py_get_def)
qed (simp_all add: list_field_def py_get_def)

lemma list_field_other:
  "\<forall>members. data \<noteq> JObj members \<Longrightarrow> list_field data k = Inl AttributeError"
  by (cases data) (simp_all add: list_field_def py_get_def)

lemma build_minutes_object:
  "build_minutes (JObj members) t d =
     (case collect_items (elements (dict_get members (py ''action_items'') JNull)) of
        Inl e \<Rightarrow> Inl e
      | Inr items \<Rightarrow>
          Inr \<lparr>date = d, summary = elements (dict_get members (py ''summary'') JNull),
               decisions = elements (dict_get members (py ''decisions'') JNull),
               action_items = items,
               timeline = elements (dict_get members (py ''timeline'') JNull), transcript = t\<rparr>)"
  by (simp add: build_minutes_def list_field_object split: sum.splits)

lemma build_minutes_other:
  "\<forall>members. data \<noteq> JObj members \<Longrightarrow> build_minutes data t d = Inl AttributeError"
  by (simp add: build_minutes_def list_field_other)

lemma summarize_replies:
  "payload \<noteq> [] \<Longrightarrow>
   summarize_transcript (replies payload) t model ttl d = build_minutes (decode_payload payload) t d"
  by (simp add: summarize_transcript_def replies_def)

lemma summarize_items:
  assumes "payload \<noteq> []"
    and "summarize_transcript (replies payload) t model ttl d = Inr m"
    and "a \<in> set (action_items m)"
  shows "\<exists>members kvs s. decode_payload payload = JObj members \<and>
           JObj kvs \<in> set (elements (dict_get members (py ''action_items'') JNull)) \<and>
           dict_get kvs (py ''description'') JNull = JStr s \<and> s \<noteq> [] \<and>
           a = \<lparr>description = strip s,
                 owner = or_none (dict_get kvs (py ''owner'') JNull),
                 due_date = or_none (dict_get kvs (py ''due_date'') JNull)\<rparr>"
proof -
  have b: "build_minutes (decode_payload payload) t d = Inr m"
    using assms(1,2) by (simp add: summarize_replies)
  then obtain members where members: "decode_payload payload = JObj members"
    using build_minutes_other [of "decode_payload payload" t d] by auto
  let ?raw = "elements (dict_get members (py ''action_items'') JNull)"
  have "collect_items ?raw = Inr (action_items m)"
    using b members by (auto simp: build_minutes_object split: sum.splits)
  then obtain x where x: "x \<in> set ?raw" "action_item x = Inr (Some a)"
    using assms(3) collect_items_member by blast
  from action_item_Some [OF x(2)] x(1) members show ?thesis
    by blast
qed


lemma strip_chars_ends:
  "strip_chars p s = [] \<or> (\<not> p (hd (strip_chars p s)) \<and> \<not> p (last (strip_chars p s)))"
proof -
  define t where "t = dropWhile p s"
  define u where "u = dropWhile p (rev t)"
  have r: "strip_chars p s = rev u"
    by (simp add: strip_chars_def t_def u_def)
  show ?thesis
  proof (cases "u = []")
    case True
    then show ?thesis by (simp add: r)
  next
    case False
    have hu: "\<not> p (hd u)"
      using False unfolding u_def by (rule hd_dropWhile)
    have "t \<noteq> []"
      using False by (auto simp: u_def)
    then have ht: "\<not> p (hd t)"
      unfolding t_def by (rule hd_dropWhile)
    have "rev t = takeWhile p (rev t) @ u"
      by (simp add: u_def)
    then have "last (rev t) = last u"
      using False by (metis last_appendR)
    then have "last u = hd t"
      using \<open>t \<noteq> []\<close> by (simp add: last_rev)
    then show ?thesis
      using hu ht False by (simp add: r hd_rev last_rev)
  qed
qed

text \<open>
  Claim C10. Every action item kept in the minutes comes from a member of the payload's
  \<^verbatim>\<open>action_items\<close> whose description is a string, and its stored description is that string
  stripped: it is empty or neither starts nor ends with white space.
\<close>

theorem stored_description_is_stripped:
  assumes "payload \<noteq> []"
    and "summarize_transcript (replies payload) t model ttl d = Inr m"
    and "a \<in> set (action_items m)"
  shows "\<exists>members kvs s. decode_payload payload = JObj members \<and>
           JObj kvs \<in> set (elements (dict_get members (py ''action_items'') JNull)) \<and>
           dict_get kvs (py ''description'') JNull = JStr s \<and>
           description a = strip s \<and>
           (description a = [] \<or>
            (\<not> isspace (hd (description a)) \<and> \<not> isspace (last (description a))))"
proof -
  from summarize_items [OF assms] obtain members kvs s where
    h: "decode_payload payload = JObj members"
       "JObj kvs \<in> set (elements (dict_get members (py ''action_items'') JNull))"
       "dict_get kvs (py ''description'') JNull = JStr s"
       "description a = strip s"
    by auto
  have "strip s = [] \<or> (\<not> isspace (hd (strip s)) \<and> \<not> isspace (last (strip s)))"
    unfolding strip_def by (rule strip_chars_ends)
  with h show ?thesis
    by metis
qed

theorem stored_description_is_stripped_witness:
  \<open>py ''{"action_items":[{"description":"  Ship it "}]}'' \<noteq> [] \<and>
   summarize_transcript (replies (py ''{"action_items":[{"description":"  Ship it "}]}'')) [] [] [] [] =
     Inr \<lparr>date = [], summary = [], decisions = [],
          action_items = [\<lparr>description = py ''Ship it'', owner = None, due_date = None\<rparr>],
          timeline = [], transcript = []\<rparr> \<and>
   (\<exists>members kvs s.
      decode_payload (py ''{"action_items":[{"description":"  Ship it "}]}'') = JObj members \<and>
      JObj kvs \<in> set (elements (dict_get members (py ''action_items'') JNull)) \<and>
      dict_get kvs (py ''description'') JNull = JStr s \<and>
      py ''Ship it'' = strip s)\<close>
proof -
  let ?p = \<open>py ''{"action_items":[{"description":"  Ship it "}]}''\<close>
  let ?a = "\<lparr>description = py ''Ship it'', owner = None, due_date = None\<rparr>"
  let ?m = "\<lparr>date = [], summary = [], decisions = [], action_items = [?a],
             timeline = [], transcript = []\<rparr>"
  have h1: "?p \<noteq> []"
    by (simp add: py_def)
  have h2: "summarize_transcript (replies ?p) [] [] [] [] = Inr ?m"
    by (simp add: eval_defs)
  have h3: "?a \<in> set (action_items ?m)"
    by simp
  from stored_description_is_stripped [OF h1 h2 h3] have
    "\<exists>members kvs s. decode_payload ?p = JObj members \<and>
      JObj kvs \<in> set (elements (dict_get members (py ''action_items'') JNull)) \<and>
      dict_get kvs (py ''description'') JNull = JStr s \<and> py ''Ship it'' = strip s"
    by (metis (no_types, lifting) ActionItem.select_convs(1))
  with h1 h2 show ?thesis
    by blast
qed




text \<open>
  Claim C9. The payload \<^verbatim>\<open>{}\<close> gives minutes whose four lists are empty and whose date and
  transcript are the caller's.
\<close>

theorem empty_object_gives_empty_minutes:
  "summarize_transcript (replies (py ''{}'')) transcript' model meeting_title meeting_date =
     Inr \<lparr>date = meeting_date, summary = [], decisions = [], action_items = [], timeline = [],
          transcript = transcript'\<rparr>"
  by (simp add: eval_defs)

text \<open>
  Claim C1, at the payload \<^verbatim>\<open>[]\<close>: it decodes at the first attempt to a list, which has no
  \<^verbatim>\<open>get\<close>, and \<^verbatim>\<open>summarize_transcript\<close> raises \<^verbatim>\<open>AttributeError\<close> instead of returning
  empty minutes.
\<close>

theorem bare_list_payload_raises:
  "summarize_transcript (replies (py ''[]'')) transcript' model meeting_title meeting_date =
     Inl AttributeError"
  by (simp add: eval_defs)

text \<open>
  Claim C2, at the payload of the claim: the first decode fails, the retry decodes the text
  without the backquotes, which still starts with the word \<^verbatim>\<open>json\<close>, and fails too; the
  summary is empty, not \<^verbatim>\<open>["a"]\<close>.
\<close>

theorem fenced_json_payload_is_lost:
  \<open>summarize_transcript (replies (py ''```json\<newline>{"summary":["a"]}\<newline>```''))
     transcript' model meeting_title meeting_date =
     Inr \<lparr>date = meeting_date, summary = [], decisions = [], action_items = [], timeline = [],
          transcript = transcript'\<rparr>\<close>
  by (simp add: eval_defs)

lemma bare_fence_payload_is_read:
  \<open>summarize_transcript (replies (py ''```\<newline>{"summary":["a"]}\<newline>```''))
     transcript' model meeting_title meeting_date =
     Inr \<lparr>date = meeting_date, summary = [JStr (py ''a'')], decisions = [], action_items = [],
          timeline = [], transcript = transcript'\<rparr>\<close>
  by (simp add: eval_defs)

text \<open>
  Claim C3, at the action item of the claim: its description is two spaces, which is a true
  value, so the item is kept, and it is stored with the empty description.
\<close>

theorem blank_description_is_retained:
  \<open>summarize_transcript
     (replies (py ''{"action_items":[{"description":"  ","owner":"Bob"}]}''))
     transcript' model meeting_title meeting_date =
     Inr \<lparr>date = meeting_date, summary = [], decisions = [],
          action_items = [\<lparr>description = [], owner = Some (JStr (py ''Bob'')), due_date = None\<rparr>],
          timeline = [], transcript = transcript'\<rparr>\<close>
  by (simp add: eval_defs)

lemma undecodable_payload_gives_empty_minutes:
  assumes "json_loads content = None" and "json_loads (strip_backticks (strip content)) = None"
  shows "build_minutes (decode_payload content) t d =
     Inr \<lparr>date = d, summary = [], decisions = [], action_items = [], timeline = [], transcript = t\<rparr>"
  using assms by (simp add: decode_payload_def build_minutes_object dict_get_def)

lemma non_object_payload_raises:
  assumes "\<forall>members. decode_payload content \<noteq> JObj members"
  shows "build_minutes (decode_payload content) t d = Inl AttributeError"
  using assms by (rule build_minutes_other)

section \<open>Properties of \<^verbatim>\<open>transcribe_audio\<close>\<close>

lemma transcribe_segments_failure:
  assumes "i < length segs"
    and "\<forall>j<i. \<exists>w. client (segment_request prompt' language' (segs ! j)) = Inr w"
    and "client (segment_request prompt' language' (segs ! i)) = Inl e"
  shows "transcribe_segments client prompt' language' segs calls segments =
           (calls @ map (segment_request prompt' language') (take (Suc i) segs), Inl e)"
  using assms
proof (induction segs arbitrary: i calls segments)
  case Nil
  then show ?case by simp
next
  case (Cons s rest)
  show ?case
  proof (cases i)
    case 0
    with Cons.prems(3) show ?thesis
      by (simp add: segment_request_def)
  next
    case (Suc k)
    from Cons.prems(2) Suc obtain w where t: "client (segment_request prompt' language' s) = Inr w"
      by fastforce
    have k: "k < length rest"
      using Cons.prems(1) Suc by simp
    have before: "\<forall>j<k. \<exists>w. client (segment_request prompt' language' (rest ! j)) = Inr w"
    proof (intro allI impI)
      fix j
      assume "j < k"
      then have "Suc j < i"
        using Suc by simp
      with Cons.prems(2) show "\<exists>w. client (segment_request prompt' language' (rest ! j)) = Inr w"
        by fastforce
    qed
    have at: "client (segment_request prompt' language' (rest ! k)) = Inl e"
      using Cons.prems(3) Suc by simp
    from Cons.IH [OF k before at] t Suc show ?thesis
      by (simp add: segment_request_def)
  qed
qed

lemma transcribe_segments_success:
  assumes "\<forall>s \<in> set segs. \<exists>w. client (segment_request prompt' language' s) = Inr w"
  shows "transcribe_segments client prompt' language' segs calls segments =
           (calls @ map (segment_request prompt' language') segs,
            Inr (segments @ map (\<lambda>s. projr (client (segment_request prompt' language' s))) segs))"
  using assms
proof (induction segs arbitrary: calls segments)
  case Nil
  then show ?case by simp
next
  case (Cons s rest)
  then obtain w where t: "client (segment_request prompt' language' s) = Inr w"
    by auto
  from Cons t show ?case
    by (simp add: segment_request_def)
qed

text \<open>
  Claim C6. With \<^verbatim>\<open>chunk_seconds\<close> absent, zero or negative and an audio file at the path,
  \<^verbatim>\<open>transcribe_audio\<close> sends exactly one request, for the whole file, with the prompt and
  the language unchanged, and its result is the client's answer to that request.
\<close>

theorem no_chunking_is_one_whole_file_call:
  assumes "chunk_seconds = None \<or> (\<exists>n. chunk_seconds = Some n \<and> n \<le> 0)"
  shows "transcribe_audio client (path, AudioFile L) prompt' chunk_seconds language' =
           ([\<lparr>file_arg = WholeFile, prompt = prompt', language = language'\<rparr>],
            client \<lparr>file_arg = WholeFile, prompt = prompt', language = language'\<rparr>)"
proof -
  let ?req = "\<lparr>file_arg = WholeFile, prompt = prompt', language = language'\<rparr>"
  have whole: "(case client ?req of Inl e \<Rightarrow> ([?req], Inl e) | Inr text \<Rightarrow> ([?req], Inr text)) =
               ([?req], client ?req)"
    by (cases "client ?req") simp_all
  from assms show ?thesis
  proof
    assume "chunk_seconds = None"
    then show ?thesis
      using whole by (simp add: transcribe_audio_def validate_audio_path_def Let_def)
  next
    assume "\<exists>n. chunk_seconds = Some n \<and> n \<le> 0"
    then obtain n where "chunk_seconds = Some n" "n \<le> 0"
      by blast
    then show ?thesis
      using whole by (simp add: transcribe_audio_def validate_audio_path_def Let_def)
  qed
qed

theorem no_chunking_is_one_whole_file_call_witness:
  "transcribe_audio (failing_at 0) (py ''a.mp3'', AudioFile 2500) None None (Some (py ''en'')) =
     ([\<lparr>file_arg = WholeFile, prompt = None, language = Some (py ''en'')\<rparr>], Inr (py ''ok'')) \<and>
   transcribe_audio (failing_at 0) (py ''a.mp3'', AudioFile 2500) None (Some 0) (Some (py ''en'')) =
     ([\<lparr>file_arg = WholeFile, prompt = None, language = Some (py ''en'')\<rparr>], Inr (py ''ok'')) \<and>
   transcribe_audio (failing_at 0) (py ''a.mp3'', AudioFile 2500) None (Some (- 30)) (Some (py ''en'')) =
     ([\<lparr>file_arg = WholeFile, prompt = None, language = Some (py ''en'')\<rparr>], Inr (py ''ok''))"
  using no_chunking_is_one_whole_file_call [of None "failing_at 0" "py ''a.mp3''" 2500 None "Some (py ''en'')"]
    no_chunking_is_one_whole_file_call [of "Some 0" "failing_at 0" "py ''a.mp3''" 2500 None "Some (py ''en'')"]
    no_chunking_is_one_whole_file_call [of "Some (- 30)" "failing_at 0" "py ''a.mp3''" 2500 None "Some (py ''en'')"]
  by (simp add: failing_at_def)


lemma chunk_audio_example:
  "chunk_audio 2500 1 =
     Inr [\<lparr>start_ms = 0, stop_ms = 1000\<rparr>, \<lparr>start_ms = 1000, stop_ms = 2000\<rparr>,
          \<lparr>start_ms = 2000, stop_ms = 2500\<rparr>]"
  by (simp add: chunk_audio_def py_range_def slice_def range_up.simps)

text \<open>
  Claim C4, as the code has it. When the client raises for segment \<open>i\<close> after answering the
  segments before it, \<^verbatim>\<open>transcribe_audio\<close> has sent the requests for the segments up to
  \<open>i\<close> and no other, and raises the client's exception unchanged; \<^verbatim>\<open>main\<close> ends with that
  same exception, whatever the chat client is, so no minutes are made from the texts
  received so far.
\<close>

theorem failing_chunk_aborts_with_client_error:
  assumes "0 < chunk_seconds"
    and "chunk_audio L chunk_seconds = Inr segs"
    and "i < length segs"
    and "\<forall>j<i. \<exists>w. client (segment_request prompt' language' (segs ! j)) = Inr w"
    and "client (segment_request prompt' language' (segs ! i)) = Inl e"
    and "audio_arg a = (path, AudioFile L)"
    and "chunk_seconds_arg a = Some chunk_seconds"
    and "whisper_prompt a = prompt'"
    and "language_arg a = language'"
    and "key \<noteq> []"
  shows "transcribe_audio client (path, AudioFile L) prompt' (Some chunk_seconds) language' =
           (map (segment_request prompt' language') (take (Suc i) segs), Inl e) \<and>
         main (Some key) client chat other a = Inl e"
proof -
  have loop: "transcribe_segments client prompt' language' segs [] [] =
                (map (segment_request prompt' language') (take (Suc i) segs), Inl e)"
    using transcribe_segments_failure [OF assms(3,4,5), of "[]" "[]"] by simp
  have t: "transcribe_audio client (path, AudioFile L) prompt' (Some chunk_seconds) language' =
             (map (segment_request prompt' language') (take (Suc i) segs), Inl e)"
    using assms(1,2) loop by (simp add: transcribe_audio_def validate_audio_path_def)
  have "main (Some key) client chat other a = Inl e"
    using assms(6-10) t by (simp add: main_def require_api_key_def)
  with t show ?thesis
    by simp
qed

theorem failing_chunk_aborts_with_client_error_witness:
  "chunk_audio 2500 1 =
     Inr [\<lparr>start_ms = 0, stop_ms = 1000\<rparr>, \<lparr>start_ms = 1000, stop_ms = 2000\<rparr>,
          \<lparr>start_ms = 2000, stop_ms = 2500\<rparr>] \<and>
   failing_at 1000 (segment_request None None \<lparr>start_ms = 0, stop_ms = 1000\<rparr>) = Inr (py ''ok'') \<and>
   failing_at 1000 (segment_request None None \<lparr>start_ms = 1000, stop_ms = 2000\<rparr>) =
     Inl (ApiError (py ''connection reset'')) \<and>
   transcribe_audio (failing_at 1000) (py ''standup.mp3'', AudioFile 2500) None (Some 1) None =
     ([\<lparr>file_arg = Segment \<lparr>start_ms = 0, stop_ms = 1000\<rparr>, prompt = None, language = None\<rparr>,
       \<lparr>file_arg = Segment \<lparr>start_ms = 1000, stop_ms = 2000\<rparr>, prompt = None, language = None\<rparr>],
      Inl (ApiError (py ''connection reset''))) \<and>
   main (Some (py ''sk-test'')) (failing_at 1000) (replies (py ''{}'')) (\<lambda>v. []) (example_args (Some 1)) =
     Inl (ApiError (py ''connection reset''))"
proof -
  let ?segs = "[\<lparr>start_ms = 0, stop_ms = 1000\<rparr>, \<lparr>start_ms = 1000, stop_ms = 2000\<rparr>,
                \<lparr>start_ms = 2000, stop_ms = 2500\<rparr>]"
  have h1: "(0::int) < 1"
    by simp
  have h2: "chunk_audio 2500 1 = Inr ?segs"
    by (rule chunk_audio_example)
  have h3: "1 < length ?segs"
    by simp
  have ok: "failing_at 1000 (segment_request None None \<lparr>start_ms = 0, stop_ms = 1000\<rparr>) = Inr (py ''ok'')"
    by (simp add: failing_at_def segment_request_def)
  have h4: "\<forall>j<1. \<exists>w. failing_at 1000 (segment_request None None (?segs ! j)) = Inr w"
    using ok by simp
  have h5: "failing_at 1000 (segment_request None None (?segs ! 1)) =
              Inl (ApiError (py ''connection reset''))"
    by (simp add: failing_at_def segment_request_def)
  have h6: "audio_arg (example_args (Some 1)) = (py ''standup.mp3'', AudioFile 2500)"
    and h7: "chunk_seconds_arg (example_args (Some 1)) = Some 1"
    and h8: "whisper_prompt (example_args (Some 1)) = None"
    and h9: "language_arg (example_args (Some 1)) = None"
    by (simp_all add: example_args_def)
  have h10: "py ''sk-test'' \<noteq> []"
    by (simp add: py_def)
  from failing_chunk_aborts_with_client_error [OF h1 h2 h3 h4 h5 h6 h7 h8 h9 h10,
      of "replies (py ''{}'')" "\<lambda>v. []"]
  have "transcribe_audio (failing_at 1000) (py ''standup.mp3'', AudioFile 2500) None (Some 1) None =
          ([\<lparr>file_arg = Segment \<lparr>start_ms = 0, stop_ms = 1000\<rparr>, prompt = None, language = None\<rparr>,
            \<lparr>file_arg = Segment \<lparr>start_ms = 1000, stop_ms = 2000\<rparr>, prompt = None, language = None\<rparr>],
           Inl (ApiError (py ''connection reset'')))"
    and "main (Some (py ''sk-test'')) (failing_at 1000) (replies (py ''{}'')) (\<lambda>v. [])
           (example_args (Some 1)) = Inl (ApiError (py ''connection reset''))"
    by (simp_all add: segment_request_def)
  with h2 ok h5 show ?thesis
    by simp
qed

text \<open>
  Claim C4, the part that does not hold. With three segments, one client raises for the
  first and another raises the same exception for the second: one request is sent in the
  first run and two in the second, and \<^verbatim>\<open>main\<close> ends with the same exception in both, so
  the exception does not tell which segment failed.
\<close>

theorem chunk_failure_error_has_no_index:
  "transcribe_audio (failing_at 0) (py ''standup.mp3'', AudioFile 2500) None (Some 1) None =
     ([\<lparr>file_arg = Segment \<lparr>start_ms = 0, stop_ms = 1000\<rparr>, prompt = None, language = None\<rparr>],
      Inl (ApiError (py ''connection reset''))) \<and>
   transcribe_audio (failing_at 1000) (py ''standup.mp3'', AudioFile 2500) None (Some 1) None =
     ([\<lparr>file_arg = Segment \<lparr>start_ms = 0, stop_ms = 1000\<rparr>, prompt = None, language = None\<rparr>,
       \<lparr>file_arg = Segment \<lparr>start_ms = 1000, stop_ms = 2000\<rparr>, prompt = None, language = None\<rparr>],
      Inl (ApiError (py ''connection reset''))) \<and>
   main (Some (py ''sk-test'')) (failing_at 0) (replies (py ''{}'')) (\<lambda>v. []) (example_args (Some 1)) =
     Inl (ApiError (py ''connection reset'')) \<and>
   main (Some (py ''sk-test'')) (failing_at 1000) (replies (py ''{}'')) (\<lambda>v. []) (example_args (Some 1)) =
     Inl (ApiError (py ''connection reset''))"
proof -
  have t0: "transcribe_audio (failing_at 0) (py ''standup.mp3'', AudioFile 2500) None (Some 1) None =
     ([\<lparr>file_arg = Segment \<lparr>start_ms = 0, stop_ms = 1000\<rparr>, prompt = None, language = None\<rparr>],
      Inl (ApiError (py ''connection reset'')))"
    by (simp add: transcribe_audio_def validate_audio_path_def chunk_audio_example failing_at_def)
  have t1: "transcribe_audio (failing_at 1000) (py ''standup.mp3'', AudioFile 2500) None (Some 1) None =
     ([\<lparr>file_arg = Segment \<lparr>start_ms = 0, stop_ms = 1000\<rparr>, prompt = None, language = None\<rparr>,
       \<lparr>file_arg = Segment \<lparr>start_ms = 1000, stop_ms = 2000\<rparr>, prompt = None, language = None\<rparr>],
      Inl (ApiError (py ''connection reset'')))"
    by (simp add: transcribe_audio_def validate_audio_path_def chunk_audio_example failing_at_def)
  have k: "require_api_key (Some (py ''sk-test'')) = Inr (py ''sk-test'')"
    by (simp add: require_api_key_def py_def)
  have m0: "main (Some (py ''sk-test'')) (failing_at 0) (replies (py ''{}'')) (\<lambda>v. [])
              (example_args (Some 1)) = Inl (ApiError (py ''connection reset''))"
    using t0 by (simp add: main_def k example_args_def)
  have m1: "main (Some (py ''sk-test'')) (failing_at 1000) (replies (py ''{}'')) (\<lambda>v. [])
              (example_args (Some 1)) = Inl (ApiError (py ''connection reset''))"
    using t1 by (simp add: main_def k example_args_def)
  from t0 t1 m0 m1 show ?thesis
    by simp
qed

end
